theory Spec2Isabelle
  imports Complex_Main "HOL-Library.Monad_Syntax"
begin

section \<open>Python values, exceptions and string primitives\<close>

text \<open>
  The harvester is Python 2 code (\<^verbatim>\<open>dict.has_key\<close>, byte strings). Strings are modelled
  as \<^typ>\<open>string\<close>; an uncaught exception of the source is the \<open>Inl\<close> branch of a sum.
\<close>

datatype ckan_error = NotFound | NotAuthorized | ValidationError | ServerTimeout

datatype exn = IndexError | KeyError | TypeError | AttributeError | CKANError ckan_error

text \<open>\<^verbatim>\<open>xs[i]\<close>: a negative index counts from the end, an index out of range raises.\<close>

definition py_index :: "'a list \<Rightarrow> int \<Rightarrow> exn + 'a" where
  "py_index xs i =
     (let j = (if i < 0 then i + int (length xs) else i)
      in if j < 0 \<or> int (length xs) \<le> j then Inl IndexError else Inr (xs ! nat j))"

text \<open>\<^verbatim>\<open>xs[0:k]\<close>: a negative bound counts from the end, bounds are clamped.\<close>

definition py_slice0 :: "'a list \<Rightarrow> int \<Rightarrow> 'a list" where
  "py_slice0 xs k = take (nat (if k < 0 then k + int (length xs) else k)) xs"

definition is_lower :: "char \<Rightarrow> bool" where
  "is_lower c = (c \<in> set ''abcdefghijklmnopqrstuvwxyz'')"

text \<open>The whitespace of \<^verbatim>\<open>str.split()\<close> and of \<^verbatim>\<open>\s\<close>: space, \<^verbatim>\<open>\t \n \v \f \r\<close>.\<close>

definition is_space :: "char \<Rightarrow> bool" where
  "is_space c = (c \<in> set [CHR '' '', CHR 0x09, CHR 0x0A, CHR 0x0B, CHR 0x0C, CHR 0x0D])"

definition lower_char :: "char \<Rightarrow> char" where
  "lower_char c =
     (case map_of (zip ''ABCDEFGHIJKLMNOPQRSTUVWXYZ'' ''abcdefghijklmnopqrstuvwxyz'') c of
        None \<Rightarrow> c | Some l \<Rightarrow> l)"

definition upper_char :: "char \<Rightarrow> char" where
  "upper_char c =
     (case map_of (zip ''abcdefghijklmnopqrstuvwxyz'' ''ABCDEFGHIJKLMNOPQRSTUVWXYZ'') c of
        None \<Rightarrow> c | Some u \<Rightarrow> u)"

definition lower :: "string \<Rightarrow> string" where
  "lower s = map lower_char s"

definition upper :: "string \<Rightarrow> string" where
  "upper s = map upper_char s"

text \<open>\<^verbatim>\<open>s.replace(c, "")\<close> for a one-character \<^verbatim>\<open>c\<close>.\<close>

definition remove_char :: "char \<Rightarrow> string \<Rightarrow> string" where
  "remove_char c s = filter (\<lambda>x. x \<noteq> c) s"

definition startswith :: "string \<Rightarrow> string \<Rightarrow> bool" where
  "startswith s pre = (take (length pre) s = pre)"

definition endswith :: "string \<Rightarrow> string \<Rightarrow> bool" where
  "endswith s suf = (length suf \<le> length s \<and> drop (length s - length suf) s = suf)"

text \<open>\<^verbatim>\<open>sep.join(ws)\<close>.\<close>

fun join :: "string \<Rightarrow> string list \<Rightarrow> string" where
  "join sep [] = []"
| "join sep [w] = w"
| "join sep (w # v # ws) = w @ sep @ join sep (v # ws)"

text \<open>
  \<^verbatim>\<open>s.split()\<close>: the maximal runs of non-whitespace characters, in order. \<open>cur\<close> is the
  run being read.
\<close>

fun split_acc :: "string \<Rightarrow> string \<Rightarrow> string list" where
  "split_acc cur [] = (if cur = [] then [] else [cur])"
| "split_acc cur (c # s) =
     (if is_space c then (if cur = [] then split_acc [] s else cur # split_acc [] s)
      else split_acc (cur @ [c]) s)"

definition split_ws :: "string \<Rightarrow> string list" where
  "split_ws s = split_acc [] s"

text \<open>\<^verbatim>\<open>s.split(sep)\<close> for a one-character separator: never empty.\<close>

fun split_on :: "char \<Rightarrow> string \<Rightarrow> string list" where
  "split_on sep [] = [[]]"
| "split_on sep (c # s) =
     (if c = sep then [] # split_on sep s
      else (case split_on sep s of [] \<Rightarrow> [[c]] | w # ws \<Rightarrow> (c # w) # ws))"

section \<open>The standard library's date parser, for the one format the harvester uses\<close>

text \<open>
  \<^verbatim>\<open>datetime.strptime(d, "%d-%m-%Y %H:%M:%S").strftime("%Y-%m-%dT%H:%M:%S")\<close> of Python 2.7.
  The library compiles the format to the regular expression
  \<^verbatim>\<open>(3[0-1]|[1-2]\d|0[1-9]|[1-9]| [1-9])-(1[0-2]|0[1-9]|[1-9])-(\d\d\d\d)\s+(2[0-3]|[0-1]\d|\d):([0-5]\d|\d):(6[0-1]|[0-5]\d|\d)\<close>,
  matches it at the start of the text and raises \<^verbatim>\<open>ValueError\<close> when it does not match or
  when text remains. The fields must then form a date of the calendar with a second below 60,
  and \<^verbatim>\<open>strftime\<close> raises \<^verbatim>\<open>ValueError\<close> for a year before 1900. \<open>None\<close> stands for
  \<^verbatim>\<open>ValueError\<close>.
\<close>

definition digit_val :: "char \<Rightarrow> nat option" where
  "digit_val c =
     map_of [(CHR ''0'', 0), (CHR ''1'', 1), (CHR ''2'', 2), (CHR ''3'', 3), (CHR ''4'', 4),
             (CHR ''5'', 5), (CHR ''6'', 6), (CHR ''7'', 7), (CHR ''8'', 8), (CHR ''9'', 9)] c"

text \<open>
  A numeric field of one or two digits: \<open>two a b\<close> says that one of the two-digit
  alternatives takes the digits \<open>a b\<close>, \<open>one a\<close> that the one-digit alternative takes \<open>a\<close>.
  The two-digit alternatives come first in every field. Once one of them has matched the
  matcher never comes back to the one-digit alternative: that would leave a digit in front of
  the \<^verbatim>\<open>-\<close> or \<^verbatim>\<open>:\<close> that follows the field, and nothing follows the last field.
\<close>

fun num_field :: "(nat \<Rightarrow> nat \<Rightarrow> bool) \<Rightarrow> (nat \<Rightarrow> bool) \<Rightarrow> string \<Rightarrow> (nat \<times> string) option" where
  "num_field two one [] = None"
| "num_field two one [c] =
     (case digit_val c of None \<Rightarrow> None | Some a \<Rightarrow> if one a then Some (a, []) else None)"
| "num_field two one (c # c' # r) =
     (case digit_val c of
        None \<Rightarrow> None
      | Some a \<Rightarrow>
          (case digit_val c' of
             None \<Rightarrow> if one a then Some (a, c' # r) else None
           | Some b \<Rightarrow>
               if two a b then Some (10 * a + b, r)
               else if one a then Some (a, c' # r) else None))"

definition field_d :: "string \<Rightarrow> (nat \<times> string) option" where
  "field_d s =
     (case num_field (\<lambda>a b. (a = 3 \<and> b \<le> 1) \<or> (1 \<le> a \<and> a \<le> 2) \<or> (a = 0 \<and> 1 \<le> b))
                     (\<lambda>a. 1 \<le> a) s of
        Some r \<Rightarrow> Some r
      | None \<Rightarrow>
          (case s of
             c # c' # r \<Rightarrow>
               (if c = CHR '' '' then
                  (case digit_val c' of
                     None \<Rightarrow> None
                   | Some b \<Rightarrow> if 1 \<le> b then Some (b, r) else None)
                else None)
           | _ \<Rightarrow> None))"

definition field_m :: "string \<Rightarrow> (nat \<times> string) option" where
  "field_m s = num_field (\<lambda>a b. (a = 1 \<and> b \<le> 2) \<or> (a = 0 \<and> 1 \<le> b)) (\<lambda>a. 1 \<le> a) s"

definition field_Y :: "string \<Rightarrow> (nat \<times> string) option" where
  "field_Y s =
     (case s of
        c1 # c2 # c3 # c4 # r \<Rightarrow>
          (case (digit_val c1, digit_val c2, digit_val c3, digit_val c4) of
             (Some a, Some b, Some c, Some d) \<Rightarrow> Some (1000 * a + 100 * b + 10 * c + d, r)
           | _ \<Rightarrow> None)
      | _ \<Rightarrow> None)"

definition field_H :: "string \<Rightarrow> (nat \<times> string) option" where
  "field_H s = num_field (\<lambda>a b. (a = 2 \<and> b \<le> 3) \<or> a \<le> 1) (\<lambda>a. True) s"

definition field_M :: "string \<Rightarrow> (nat \<times> string) option" where
  "field_M s = num_field (\<lambda>a b. a \<le> 5) (\<lambda>a. True) s"

definition field_S :: "string \<Rightarrow> (nat \<times> string) option" where
  "field_S s = num_field (\<lambda>a b. (a = 6 \<and> b \<le> 1) \<or> a \<le> 5) (\<lambda>a. True) s"

text \<open>A literal character of the format, and \<^verbatim>\<open>\s+\<close> for the blank of the format.\<close>

definition lit :: "char \<Rightarrow> string \<Rightarrow> string option" where
  "lit c s = (case s of [] \<Rightarrow> None | x # r \<Rightarrow> if x = c then Some r else None)"

definition blanks :: "string \<Rightarrow> string option" where
  "blanks s = (case s of [] \<Rightarrow> None | x # r \<Rightarrow> if is_space x then Some (dropWhile is_space r) else None)"

definition leap_year :: "nat \<Rightarrow> bool" where
  "leap_year y = (y mod 4 = 0 \<and> (y mod 100 \<noteq> 0 \<or> y mod 400 = 0))"

definition days_in_month :: "nat \<Rightarrow> nat \<Rightarrow> nat" where
  "days_in_month y m =
     (if m = 2 then (if leap_year y then 29 else 28)
      else if m \<in> {4, 6, 9, 11} then 30 else 31)"

record datetime =
  year :: nat
  month :: nat
  day :: nat
  hour :: nat
  minute :: nat
  second :: nat

definition strptime :: "string \<Rightarrow> datetime option" where
  "strptime s = do {
     (d, s1) \<leftarrow> field_d s;
     s2 \<leftarrow> lit CHR ''-'' s1;
     (m, s3) \<leftarrow> field_m s2;
     s4 \<leftarrow> lit CHR ''-'' s3;
     (y, s5) \<leftarrow> field_Y s4;
     s6 \<leftarrow> blanks s5;
     (H, s7) \<leftarrow> field_H s6;
     s8 \<leftarrow> lit CHR '':'' s7;
     (M, s9) \<leftarrow> field_M s8;
     s10 \<leftarrow> lit CHR '':'' s9;
     (S, rest) \<leftarrow> field_S s10;
     if rest \<noteq> [] then None
     else if y < 1 \<or> days_in_month y m < d \<or> 59 < S then None
     else Some \<lparr>year = y, month = m, day = d, hour = H, minute = M, second = S\<rparr>
   }"

definition digit_char :: "nat \<Rightarrow> char" where
  "digit_char k = ''0123456789'' ! (k mod 10)"

definition pad2 :: "nat \<Rightarrow> string" where
  "pad2 n = [digit_char (n div 10), digit_char n]"

definition pad4 :: "nat \<Rightarrow> string" where
  "pad4 n = [digit_char (n div 1000), digit_char (n div 100), digit_char (n div 10), digit_char n]"

definition iso_text :: "datetime \<Rightarrow> string" where
  "iso_text t =
     pad4 (year t) @ ''-'' @ pad2 (month t) @ ''-'' @ pad2 (day t) @ ''T'' @
     pad2 (hour t) @ '':'' @ pad2 (minute t) @ '':'' @ pad2 (second t)"

definition strftime_iso :: "datetime \<Rightarrow> string option" where
  "strftime_iso t = (if year t < 1900 then None else Some (iso_text t))"

definition strptime_iso :: "string \<Rightarrow> string option" where
  "strptime_iso s = (case strptime s of None \<Rightarrow> None | Some t \<Rightarrow> strftime_iso t)"

section \<open>The name parser\<close>

text \<open>
  \<^verbatim>\<open>re.sub(r"[a-z]\(", u" (", text)\<close>: every match, from the left and without overlap, is
  replaced; the match is the lower-case letter together with the parenthesis.
\<close>

fun re_sub_lower_paren :: "string \<Rightarrow> string" where
  "re_sub_lower_paren (a # b # s) =
     (if is_lower a \<and> b = CHR ''('' then CHR '' '' # CHR ''('' # re_sub_lower_paren s
      else a # re_sub_lower_paren (b # s))"
| "re_sub_lower_paren s = s"

text \<open>
  \<^verbatim>\<open>parse_name(text)\<close>, with the formatted \<^verbatim>\<open>datetime.now()\<close> as the parameter \<open>now\<close>.
  The source's flag \<^verbatim>\<open>set_dummy_date\<close> is the value \<open>None\<close> of the date read so far: it
  is set when the last part starts with a parenthesis and when the date does not parse.
  The indexing \<^verbatim>\<open>p[-1]\<close>, \<^verbatim>\<open>p[-2]\<close> and \<^verbatim>\<open>p[-chop_off]\<close> raises where the part is missing.
\<close>

definition parse_name :: "string \<Rightarrow> string \<Rightarrow> exn + (string \<times> string option \<times> string)" where
  "parse_name now text =
     (let p = split_ws (re_sub_lower_paren text) in
      case py_index p (- 1) of
        Inl e \<Rightarrow> Inl e
      | Inr lst \<Rightarrow>
          (let date_missing = startswith lst ''('';
               chop_off = (if date_missing then 1 else 3 :: int)
           in case (if \<not> date_missing then
                      (case py_index p (- 2) of
                         Inl e \<Rightarrow> Inl e
                       | Inr prev \<Rightarrow>
                           Inr (strptime_iso (remove_char CHR ''('' prev @ '' '' @
                                              remove_char CHR '')'' lst)))
                    else Inr None) of
                Inl e \<Rightarrow> Inl e
              | Inr parsed \<Rightarrow>
                  (let dt = (case parsed of None \<Rightarrow> now | Some v \<Rightarrow> v)
                   in if endswith lst '')'' then
                        (case py_index p (- chop_off) of
                           Inl e \<Rightarrow> Inl e
                         | Inr tok \<Rightarrow>
                             Inr (join '' '' (py_slice0 p (int (length p) - chop_off)),
                                  Some (lower (remove_char CHR '')'' (remove_char CHR ''('' tok))),
                                  dt))
                      else Inr (join '' '' (py_slice0 p (int (length p) - 0)), None, dt))))"

text \<open>
  The words of the specification about titles. A date that the parser takes, written
  \<^verbatim>\<open>DD-MM-YYYY\<close> and \<^verbatim>\<open>HH:MM:SS\<close>; a text in which some lower-case letter stands
  directly before an opening parenthesis; a part in parentheses.
\<close>

definition valid_datetime :: "datetime \<Rightarrow> bool" where
  "valid_datetime t =
     (1900 \<le> year t \<and> year t \<le> 9999 \<and> 1 \<le> month t \<and> month t \<le> 12 \<and>
      1 \<le> day t \<and> day t \<le> days_in_month (year t) (month t) \<and>
      hour t < 24 \<and> minute t < 60 \<and> second t < 60)"

definition dmy_text :: "datetime \<Rightarrow> string" where
  "dmy_text t = pad2 (day t) @ ''-'' @ pad2 (month t) @ ''-'' @ pad4 (year t)"

definition hms_text :: "datetime \<Rightarrow> string" where
  "hms_text t = pad2 (hour t) @ '':'' @ pad2 (minute t) @ '':'' @ pad2 (second t)"

fun has_lower_paren :: "string \<Rightarrow> bool" where
  "has_lower_paren (a # b # s) = ((is_lower a \<and> b = CHR ''('') \<or> has_lower_paren (b # s))"
| "has_lower_paren s = False"

definition parenthesized :: "string \<Rightarrow> bool" where
  "parenthesized tok = (startswith tok ''('' \<and> endswith tok '')'')"

section \<open>Dictionaries and lists of the catalog\<close>

text \<open>
  A package, a resource, an organisation and a group are dictionaries with string keys. A
  coordinate is carried and never computed with; \<open>PJson v\<close> stands for the text
  \<^verbatim>\<open>json.dumps(v)\<close>, which is not spelled out.
\<close>

datatype pyval =
    PNone
  | PBool bool
  | PStr string
  | PNum real
  | PList "pyval list"
  | PDict "string \<Rightarrow> pyval option"
  | PJson pyval

type_synonym pydict = "string \<Rightarrow> pyval option"

text \<open>The truth value of a term in a condition.\<close>

fun truthy :: "pyval \<Rightarrow> bool" where
  "truthy PNone = False"
| "truthy (PBool b) = b"
| "truthy (PStr s) = (s \<noteq> [])"
| "truthy (PNum x) = (x \<noteq> 0)"
| "truthy (PList xs) = (xs \<noteq> [])"
| "truthy (PDict m) = (m \<noteq> Map.empty)"
| "truthy (PJson v) = True"

text \<open>\<^verbatim>\<open>v[k]\<close> with a string key: a missing key raises, a term that is no dictionary too.\<close>

definition subscript :: "pyval \<Rightarrow> string \<Rightarrow> exn + pyval" where
  "subscript v k =
     (case v of
        PDict m \<Rightarrow> (case m k of None \<Rightarrow> Inl KeyError | Some x \<Rightarrow> Inr x)
      | _ \<Rightarrow> Inl TypeError)"

text \<open>\<^verbatim>\<open>v.has_key(k)\<close> and \<^verbatim>\<open>v.get(k, None)\<close>: only a dictionary has these methods.\<close>

definition has_key :: "pyval \<Rightarrow> string \<Rightarrow> exn + bool" where
  "has_key v k = (case v of PDict m \<Rightarrow> Inr (m k \<noteq> None) | _ \<Rightarrow> Inl AttributeError)"

definition get_or_none :: "pyval \<Rightarrow> string \<Rightarrow> exn + pyval" where
  "get_or_none v k =
     (case v of
        PDict m \<Rightarrow> Inr (case m k of None \<Rightarrow> PNone | Some x \<Rightarrow> x)
      | _ \<Rightarrow> Inl AttributeError)"

text \<open>
  The terms a loop runs over. The catalog and the mappers of this program put lists under
  \<^verbatim>\<open>resources\<close> and \<^verbatim>\<open>extras\<close>; a loop over any other term is a \<^verbatim>\<open>TypeError\<close> here.
\<close>

definition as_list :: "pyval \<Rightarrow> exn + pyval list" where
  "as_list v = (case v of PList xs \<Rightarrow> Inr xs | _ \<Rightarrow> Inl TypeError)"

section \<open>Merging resource lists\<close>

text \<open>\<^verbatim>\<open>[r["url"] for r in resourcedict_list]\<close>.\<close>

fun urls_of :: "pyval list \<Rightarrow> exn + pyval list" where
  "urls_of [] = Inr []"
| "urls_of (r # rs) =
     (case subscript r ''url'' of
        Inl e \<Rightarrow> Inl e
      | Inr u \<Rightarrow> (case urls_of rs of Inl e \<Rightarrow> Inl e | Inr us \<Rightarrow> Inr (u # us)))"

text \<open>
  \<^verbatim>\<open>add_resource_to_list\<close> appends to the list it is given and returns that list; the model
  returns the list after the call.
\<close>

definition add_resource_to_list :: "pyval list \<Rightarrow> pyval \<Rightarrow> exn + pyval list" where
  "add_resource_to_list resourcedict_list resource_dict =
     (case subscript resource_dict ''url'' of
        Inl e \<Rightarrow> Inl e
      | Inr u \<Rightarrow>
          (case urls_of resourcedict_list of
             Inl e \<Rightarrow> Inl e
           | Inr us \<Rightarrow>
               if u \<notin> set us then Inr (resourcedict_list @ [resource_dict])
               else Inr resourcedict_list))"

fun add_resources_to_list :: "pyval list \<Rightarrow> pyval list \<Rightarrow> exn + pyval list" where
  "add_resources_to_list old [] = Inr old"
| "add_resources_to_list old (resource # new) =
     (case add_resource_to_list old resource of
        Inl e \<Rightarrow> Inl e
      | Inr result \<Rightarrow> add_resources_to_list result new)"

section \<open>Creating or updating a dataset\<close>

text \<open>
  The catalog client answers each call with a package or with an exception. One run of
  \<^verbatim>\<open>upsert_dataset\<close> reads before it writes and writes at most once, so the answers are
  functions of the arguments. The calls made are recorded in order.
\<close>

record ckan =
  package_show :: "pyval \<Rightarrow> exn + pydict"
  package_create :: "pydict \<Rightarrow> exn + pydict"
  package_update :: "pydict \<Rightarrow> exn + pydict"

datatype call = PackageShow pyval | PackageCreate pydict | PackageUpdate pydict

text \<open>
  \<^verbatim>\<open>upsert_dataset(data_dict, ckanapi, overwrite_metadata, drop_existing_resources)\<close> with
  \<^verbatim>\<open>debug=False\<close>; what it prints is left out. The \<^verbatim>\<open>try\<close> around \<^verbatim>\<open>package_show\<close> has a bare
  \<^verbatim>\<open>except\<close>: every exception of the lookup leads to \<^verbatim>\<open>package_create\<close>, whose own
  exception is not caught. The result is the list of calls and the value returned or the
  exception raised.
\<close>

definition reconcile_resources :: "bool \<Rightarrow> pyval \<Rightarrow> pyval \<Rightarrow> exn + pyval" where
  "reconcile_resources drop_existing_resources old_resources new_resources =
     (if drop_existing_resources then Inr new_resources
      else
        (case as_list new_resources of
           Inl e \<Rightarrow> Inl e
         | Inr new \<Rightarrow>
             (case as_list old_resources of
                Inl e \<Rightarrow> Inl e
              | Inr old \<Rightarrow>
                  (case add_resources_to_list old new of
                     Inl e \<Rightarrow> Inl e
                   | Inr merged \<Rightarrow> Inr (PList merged)))))"

definition upsert_dataset ::
    "pydict option \<Rightarrow> ckan \<Rightarrow> bool \<Rightarrow> bool \<Rightarrow> call list \<times> (exn + pydict option)" where
  "upsert_dataset data_dict ckanapi overwrite_metadata drop_existing_resources =
     (case data_dict of
        None \<Rightarrow> ([], Inr None)
      | Some dd \<Rightarrow>
          if dd ''name'' = None then ([], Inr None)
          else
            (let n = (case dd ''name'' of None \<Rightarrow> PNone | Some v \<Rightarrow> v);
                 new_package = dd
             in case dd ''resources'' of
                  None \<Rightarrow> ([], Inl KeyError)
                | Some new_resources \<Rightarrow>
                    (case package_show ckanapi n of
                       Inl e \<Rightarrow>
                         (case package_create ckanapi dd of
                            Inl e' \<Rightarrow> ([PackageShow n, PackageCreate dd], Inl e')
                          | Inr package \<Rightarrow> ([PackageShow n, PackageCreate dd], Inr (Some package)))
                     | Inr package \<Rightarrow>
                         (case package ''resources'' of
                            None \<Rightarrow> ([PackageShow n], Inl KeyError)
                          | Some old_resources \<Rightarrow>
                              (case reconcile_resources drop_existing_resources old_resources
                                      new_resources of
                                 Inl e \<Rightarrow> ([PackageShow n], Inl e)
                               | Inr resources \<Rightarrow>
                                   (let pkg = (if overwrite_metadata then new_package else package)
                                                (''resources'' \<mapsto> resources)
                                    in case package_update ckanapi pkg of
                                         Inl e \<Rightarrow> ([PackageShow n, PackageUpdate pkg], Inl e)
                                       | Inr updated \<Rightarrow>
                                           ([PackageShow n, PackageUpdate pkg],
                                            Inr (Some updated))))))))"

text \<open>The write a run submits, if any, and the calls that change the catalog.\<close>

fun is_write :: "call \<Rightarrow> bool" where
  "is_write (PackageShow n) = False"
| "is_write (PackageCreate d) = True"
| "is_write (PackageUpdate d) = True"

fun submitted_update :: "call list \<Rightarrow> pydict option" where
  "submitted_update [] = None"
| "submitted_update (PackageUpdate d # cs) = Some d"
| "submitted_update (c # cs) = submitted_update cs"

text \<open>The \<^verbatim>\<open>url\<close> terms of a list of resources, for stating that no two are equal.\<close>

definition has_url :: "pyval \<Rightarrow> bool" where
  "has_url r = (case subscript r ''url'' of Inl e \<Rightarrow> False | Inr u \<Rightarrow> True)"

definition url_of :: "pyval \<Rightarrow> pyval" where
  "url_of r = (case subscript r ''url'' of Inl e \<Rightarrow> PNone | Inr u \<Rightarrow> u)"

text \<open>The \<^verbatim>\<open>url\<close> terms of the resources in the update a run submits.\<close>

definition submitted_urls :: "call list \<Rightarrow> pyval list option" where
  "submitted_urls calls =
     (case submitted_update calls of
        None \<Rightarrow> None
      | Some pkg \<Rightarrow> (case pkg ''resources'' of Some (PList rs) \<Rightarrow> Some (map url_of rs) | _ \<Rightarrow> None))"

text \<open>
  The merge as the specification words it: the existing resources, then each new resource
  whose \<^verbatim>\<open>url\<close> is not among those seen so far, in the given order.
\<close>

fun new_unique :: "pyval list \<Rightarrow> pyval list \<Rightarrow> pyval list" where
  "new_unique seen [] = []"
| "new_unique seen (r # rs) =
     (if url_of r \<in> set seen then new_unique seen rs
      else r # new_unique (seen @ [url_of r]) rs)"

definition merge_spec :: "pyval list \<Rightarrow> pyval list \<Rightarrow> pyval list" where
  "merge_spec old new = old @ new_unique (map url_of old) new"

section \<open>Mapping a layer to a package\<close>

text \<open>
  What \<^verbatim>\<open>wxs_to_dict\<close> reads of a layer. \<open>l_name = None\<close> is a layer without the attribute
  \<^verbatim>\<open>name\<close>, \<open>l_parent_title = None\<close> a layer whose \<^verbatim>\<open>parent.title\<close> cannot be read.
\<close>

record layer =
  l_name :: "string option"
  l_id :: string
  l_title :: string
  l_parent_title :: "string option"
  l_boundingBoxWGS84 :: "real \<times> real \<times> real \<times> real"

definition make_dataset_name :: "string \<Rightarrow> exn + string" where
  "make_dataset_name slip_wfs_name = py_index (split_on CHR '':'' slip_wfs_name) 1"

definition bboxWGSs84_to_gjMP :: "real \<times> real \<times> real \<times> real \<Rightarrow> pyval" where
  "bboxWGSs84_to_gjMP bbox =
     (case bbox of
        (e, s, w, n) \<Rightarrow>
          PJson (PDict [''type'' \<mapsto> PStr ''MultiPolygon'',
                        ''coordinates'' \<mapsto>
                          PList [PList [PList [PList [PNum e, PNum n], PList [PNum e, PNum s],
                                               PList [PNum w, PNum s], PList [PNum w, PNum n]]]]]))"

text \<open>
  The first \<^verbatim>\<open>try\<close> of \<^verbatim>\<open>wxs_to_dict\<close>: the layer's name, else the dataset name made from
  its id. The exception of \<^verbatim>\<open>make_dataset_name\<close> is raised inside the handler and leaves
  the function.
\<close>

definition layer_key :: "layer \<Rightarrow> exn + string" where
  "layer_key layer = (case l_name layer of Some n \<Rightarrow> Inr n | None \<Rightarrow> make_dataset_name (l_id layer))"

text \<open>
  Theme, keywords and group: the second \<^verbatim>\<open>try\<close>, whose bare \<^verbatim>\<open>except\<close> keeps what was
  written to the package before the exception.
\<close>

definition theme_and_group :: "layer \<Rightarrow> pydict \<Rightarrow> pydict" where
  "theme_and_group layer group_dict =
     (let d0 = [''tag_string'' \<mapsto> PList [PStr ''SLIP Classic'', PStr ''Harvested'']]
      in case l_parent_title layer of
           None \<Rightarrow> d0
         | Some p \<Rightarrow>
             (let d1 = d0(''theme'' \<mapsto> PStr p);
                  grp_dict = (case group_dict p of None \<Rightarrow> PNone | Some g \<Rightarrow> g)
              in case get_or_none grp_dict ''id'' of
                   Inl e \<Rightarrow> d1
                 | Inr grp_id \<Rightarrow>
                     (let d2 = (if truthy grp_id
                                then d1(''groups'' \<mapsto> PList [PDict [''id'' \<mapsto> grp_id]])
                                else d1)
                      in case get_or_none grp_dict ''name'' of
                           Inl e \<Rightarrow> d2
                         | Inr grp_name \<Rightarrow>
                             if truthy grp_name
                             then d2(''tag_string'' \<mapsto>
                                       PList [PStr ''SLIP Classic'', PStr ''Harvested'', grp_name])
                             else d2)))"

text \<open>\<^verbatim>\<open>od.get(k) if od and od.has_key(k) else dflt\<close>.\<close>

definition get_if_has :: "pyval \<Rightarrow> string \<Rightarrow> pyval \<Rightarrow> exn + pyval" where
  "get_if_has od k dflt =
     (if truthy od then
        (case has_key od k of
           Inl e \<Rightarrow> Inl e
         | Inr b \<Rightarrow> if b then get_or_none od k else Inr dflt)
      else Inr dflt)"

text \<open>\<^verbatim>\<open>[x["value"] for x in extras if x["key"]==k][0]\<close>.\<close>

fun extras_values :: "string \<Rightarrow> pyval list \<Rightarrow> exn + pyval list" where
  "extras_values k [] = Inr []"
| "extras_values k (x # xs) =
     (case subscript x ''key'' of
        Inl e \<Rightarrow> Inl e
      | Inr kv \<Rightarrow>
          (case (if kv = PStr k
                 then (case subscript x ''value'' of Inl e \<Rightarrow> Inl e | Inr v \<Rightarrow> Inr [v])
                 else Inr []) of
             Inl e \<Rightarrow> Inl e
           | Inr vs \<Rightarrow>
               (case extras_values k xs of Inl e \<Rightarrow> Inl e | Inr rest \<Rightarrow> Inr (vs @ rest))))"

definition first_extra :: "string \<Rightarrow> pyval \<Rightarrow> exn + pyval" where
  "first_extra k extras =
     (case as_list extras of
        Inl e \<Rightarrow> Inl e
      | Inr xs \<Rightarrow> (case extras_values k xs of Inl e \<Rightarrow> Inl e | Inr vs \<Rightarrow> py_index vs 0))"

text \<open>The owner organisation: its id, its title and its contact.\<close>

definition owner_org :: "pydict \<Rightarrow> pyval \<Rightarrow> string \<Rightarrow> exn + (pyval \<times> pyval \<times> pyval)" where
  "owner_org org_dict fallback_org_id ds_name =
     (case py_index (split_on CHR ''-'' ds_name) 0 of
        Inl e \<Rightarrow> Inl e
      | Inr org_name \<Rightarrow>
          (let owner_org_dict = (case org_dict org_name of None \<Rightarrow> PNone | Some v \<Rightarrow> v)
           in case get_if_has owner_org_dict ''id'' fallback_org_id of
                Inl e \<Rightarrow> Inl e
              | Inr owner_org_id \<Rightarrow>
                  (case get_if_has owner_org_dict ''title'' (PStr []) of
                     Inl e \<Rightarrow> Inl e
                   | Inr owner_org_title \<Rightarrow>
                       (case get_if_has owner_org_dict ''extras'' (PStr []) of
                          Inl e \<Rightarrow> Inl e
                        | Inr extras \<Rightarrow>
                            if truthy extras then
                              (case first_extra ''Contact'' extras of
                                 Inl e \<Rightarrow> Inl e
                               | Inr owner_org_contact \<Rightarrow>
                                   (case first_extra ''Jurisdiction'' extras of
                                      Inl e \<Rightarrow> Inl e
                                    | Inr owner_org_jurisdiction \<Rightarrow>
                                        Inr (owner_org_id, owner_org_title, owner_org_contact)))
                            else Inr (owner_org_id, owner_org_title, PStr [])))))"

definition slip_description :: "string \<Rightarrow> string" where
  "slip_description ds_NAME =
     ''when prompted, use your [SLIP](https://www2.landgate.wa.gov.au/'' @
     ''web/guest/how-to-access-slip-services) '' @
     ''username and password to preview the resource below '' @
     ''or open the resource URL in a GIS application (e.g. QGIS or ArcGIS) as layer _'' @
     ds_NAME @ ''_.''"

definition package_notes :: "string \<Rightarrow> string" where
  "package_notes ds_NAME =
     ''The dataset _'' @ ds_NAME @ ''_ has'' @
     '' been sourced from Landgate's '' @
     ''Shared Location Information Platform (SLIP) - the home for Western'' @
     '' Australian government geospatial data.\<newline>\<newline>Many of the datasets in'' @
     '' SLIP are free and publicly available to users who simply '' @
     ''[sign up for a SLIP account](https://www2.landgate.wa.gov.au/web/guest'' @
     ''/request-registration-type).\<newline>\<newline>Find out more about SLIP at '' @
     ''[http://slip.landgate.wa.gov.au/](http://slip.landgate.wa.gov.au/).''"

text \<open>The resources of the package: the data dictionary if there is one, then the endpoint.\<close>

definition resource_list :: "pyval \<Rightarrow> string \<Rightarrow> string \<Rightarrow> string \<Rightarrow> string \<Rightarrow> pyval list" where
  "resource_list pdf_url ds_title ds_NAME wxs_url res_format =
     (if truthy pdf_url
      then [PDict [''description'' \<mapsto> PStr (''Data Dictionary for '' @ ds_NAME),
                   ''format'' \<mapsto> PStr ''PDF'',
                   ''name'' \<mapsto> PStr ''Data dictionary and dataset metadata'',
                   ''url'' \<mapsto> pdf_url]]
      else []) @
     [PDict [''description'' \<mapsto> PStr (slip_description ds_NAME),
             ''format'' \<mapsto> PStr (lower res_format),
             ''name'' \<mapsto> PStr (ds_title @ '' ('' @ ds_NAME @ '') '' @ upper res_format),
             ''url'' \<mapsto> PStr wxs_url,
             lower res_format @ ''_layer'' \<mapsto> PStr ds_NAME]]"

text \<open>
  \<^verbatim>\<open>wxs_to_dict(layer, wxs_url, org_dict, group_dict, pdf_dict, fallback_org_id, res_format)\<close>
  with \<^verbatim>\<open>debug=False\<close>. The library function \<^verbatim>\<open>slugify\<close> and the formatted current time
  are parameters. The result \<open>Inr None\<close> is the layer that is skipped.
\<close>

definition wxs_to_dict ::
    "(string \<Rightarrow> string) \<Rightarrow> string \<Rightarrow> layer \<Rightarrow> string \<Rightarrow> pydict \<Rightarrow> pydict \<Rightarrow> pydict \<Rightarrow>
     pyval \<Rightarrow> string \<Rightarrow> exn + pydict option" where
  "wxs_to_dict slugify now layer wxs_url org_dict group_dict pdf_dict fallback_org_id res_format =
     (case layer_key layer of
        Inl e \<Rightarrow> Inl e
      | Inr n \<Rightarrow>
          (case parse_name now (l_title layer) of
             Inl e \<Rightarrow> Inl e
           | Inr parsed \<Rightarrow>
               (let ds_title = fst parsed; date_pub = snd (snd parsed)
                in case fst (snd parsed) of
                     None \<Rightarrow> Inr None
                   | Some ds_name \<Rightarrow>
                       (let ds_NAME = upper ds_name;
                            d = theme_and_group layer group_dict
                        in case owner_org org_dict fallback_org_id ds_name of
                             Inl e \<Rightarrow> Inl e
                           | Inr org \<Rightarrow>
                               (let owner_org_id = fst org;
                                    owner_org_title = fst (snd org);
                                    owner_org_contact = snd (snd org);
                                    pdf_url = (case pdf_dict ds_name of None \<Rightarrow> PNone | Some u \<Rightarrow> u)
                                in Inr (Some (d(
                                     ''name'' \<mapsto> PStr (slugify ds_title),
                                     ''title'' \<mapsto> PStr ds_title,
                                     ''notes'' \<mapsto> PStr (package_notes ds_NAME),
                                     ''owner_org'' \<mapsto> owner_org_id,
                                     ''data_portal'' \<mapsto> PStr ''http://slip.landgate.wa.gov.au/'',
                                     ''data_homepage'' \<mapsto> (if truthy pdf_url then pdf_url else PStr []),
                                     ''license_id'' \<mapsto> PStr ''cc-by-sa'',
                                     ''author'' \<mapsto> owner_org_title,
                                     ''author_email'' \<mapsto> owner_org_contact,
                                     ''maintainer_email'' \<mapsto> PStr ''customerservice@landgate.wa.gov.au'',
                                     ''maintainer'' \<mapsto> PStr ''Landgate'',
                                     ''private'' \<mapsto> PBool False,
                                     ''spatial'' \<mapsto> bboxWGSs84_to_gjMP (l_boundingBoxWGS84 layer),
                                     ''published_on'' \<mapsto> PStr date_pub,
                                     ''last_updated_on'' \<mapsto> PStr date_pub,
                                     ''update_frequency'' \<mapsto> PStr ''frequent'',
                                     ''resources'' \<mapsto>
                                       PList (resource_list pdf_url ds_title ds_NAME wxs_url
                                                res_format)))))))))"

text \<open>The dataset key of a mapped layer: the \<^verbatim>\<open>name\<close> of its package.\<close>

definition dataset_key :: "exn + pydict option \<Rightarrow> pyval option" where
  "dataset_key r = (case r of Inr (Some d) \<Rightarrow> d ''name'' | _ \<Rightarrow> None)"

section \<open>Example data\<close>

text \<open>
  A resource that only has a \<^verbatim>\<open>url\<close>, and catalog clients that answer every lookup with
  \<open>probe\<close> and every write with \<open>write\<close>: \<open>accept\<close> stores what it is sent, \<open>reject e\<close>
  raises \<open>e\<close>.
\<close>

definition resource_with_url :: "string \<Rightarrow> pyval" where
  "resource_with_url u = PDict [''url'' \<mapsto> PStr u]"

definition accept :: "pydict \<Rightarrow> exn + pydict" where
  "accept d = Inr d"

definition reject :: "exn \<Rightarrow> pydict \<Rightarrow> exn + pydict" where
  "reject e d = Inl e"

definition client_with :: "exn + pydict \<Rightarrow> (pydict \<Rightarrow> exn + pydict) \<Rightarrow> ckan" where
  "client_with probe write =
     \<lparr>package_show = (\<lambda>n. probe), package_create = write, package_update = write\<rparr>"

text \<open>
  The library function \<^verbatim>\<open>slugify\<close> on texts of letters, digits, blanks and punctuation other
  than quotes, for the examples: lower case, with one hyphen for every run of other
  characters between two words. And a layer with a fixed title and the given identifier.
\<close>

definition is_alnum :: "char \<Rightarrow> bool" where
  "is_alnum c =
     (c \<in> set ''abcdefghijklmnopqrstuvwxyzABCDEFGHIJKLMNOPQRSTUVWXYZ0123456789'')"

definition slugify_ascii :: "string \<Rightarrow> string" where
  "slugify_ascii s =
     join ''-'' (split_ws (map (\<lambda>c. if is_alnum c then lower_char c else CHR '' '') s))"

definition roads_layer :: "string \<Rightarrow> layer" where
  "roads_layer ident =
     \<lparr>l_name = Some ident, l_id = ident,
      l_title = ''Roads (LGATE-001) (14-05-2008 17:59:05)'',
      l_parent_title = None,
      l_boundingBoxWGS84 = (112.892, - 35.0874, 129.925, - 13.7403)\<rparr>"

section \<open>The merge of resource lists is the list the specification describes\<close>

lemma urls_of_wf: "\<forall>r\<in>set rs. has_url r \<Longrightarrow> urls_of rs = Inr (map url_of rs)"
  by (induction rs) (auto simp: has_url_def url_of_def split: sum.splits)

lemma add_resource_wf:
  assumes "has_url r" and "\<forall>x\<in>set rs. has_url x"
  shows "add_resource_to_list rs r = Inr (if url_of r \<in> set (map url_of rs) then rs else rs @ [r])"
  using assms urls_of_wf [of rs]
  by (auto simp: add_resource_to_list_def has_url_def url_of_def split: sum.splits)

lemma add_resources_merge:
  assumes "\<forall>x\<in>set new. has_url x" and "\<forall>x\<in>set old. has_url x"
  shows "add_resources_to_list old new = Inr (merge_spec old new)"
  using assms
proof (induction new arbitrary: old)
  case Nil
  then show ?case by (simp add: merge_spec_def)
next
  case (Cons r new)
  show ?case
  proof (cases "url_of r \<in> set (map url_of old)")
    case True
    with Cons.prems have "add_resource_to_list old r = Inr old"
      by (simp add: add_resource_wf)
    with Cons True show ?thesis by (simp add: merge_spec_def)
  next
    case False
    with Cons.prems have step: "add_resource_to_list old r = Inr (old @ [r])"
      by (simp add: add_resource_wf)
    have "add_resources_to_list (old @ [r]) new = Inr (merge_spec (old @ [r]) new)"
      using Cons.prems by (intro Cons.IH) auto
    with step False show ?thesis by (simp add: merge_spec_def)
  qed
qed

lemma new_unique_distinct:
  "distinct seen \<Longrightarrow> distinct (seen @ map url_of (new_unique seen new))"
proof (induction new arbitrary: seen)
  case Nil
  then show ?case by simp
next
  case (Cons r new)
  show ?case
  proof (cases "url_of r \<in> set seen")
    case True
    with Cons show ?thesis by simp
  next
    case False
    with Cons.prems have "distinct (seen @ [url_of r])" by simp
    from Cons.IH [OF this] False show ?thesis by simp
  qed
qed

lemma merge_spec_distinct:
  "distinct (map url_of old) \<Longrightarrow> distinct (map url_of (merge_spec old new))"
  using new_unique_distinct [of "map url_of old" new] by (simp add: merge_spec_def)

text \<open>
  Claim C1. When the package exists and \<^verbatim>\<open>drop_existing_resources\<close> is false, the update
  that \<^verbatim>\<open>upsert_dataset\<close> submits carries the existing resources in their order, followed
  by those new resources whose \<^verbatim>\<open>url\<close> is not yet in the list built so far, in the order
  given; the first resource with a \<^verbatim>\<open>url\<close> stays. Every resource has a \<^verbatim>\<open>url\<close>.
\<close>

theorem upsert_merge_resources:
  assumes "data_dict ''name'' = Some n"
    and "data_dict ''resources'' = Some (PList new)"
    and "package_show ckanapi n = Inr package"
    and "package ''resources'' = Some (PList old)"
    and "\<forall>r\<in>set old. has_url r"
    and "\<forall>r\<in>set new. has_url r"
  shows "\<exists>pkg. fst (upsert_dataset (Some data_dict) ckanapi overwrite_metadata False)
                 = [PackageShow n, PackageUpdate pkg]
               \<and> pkg ''resources'' = Some (PList (merge_spec old new))"
proof -
  have "add_resources_to_list old new = Inr (merge_spec old new)"
    using assms(5,6) by (simp add: add_resources_merge)
  with assms(1-4) show ?thesis
    by (cases "package_update ckanapi
                 ((if overwrite_metadata then data_dict else package)
                    (''resources'' \<mapsto> PList (merge_spec old new)))")
       (simp_all add: upsert_dataset_def reconcile_resources_def as_list_def Let_def)
qed

text \<open>
  Claim C1 at the example of the specification: \<^verbatim>\<open>a, b\<close> in the catalog and \<^verbatim>\<open>b, c\<close> in the draft
  give \<^verbatim>\<open>a, b, c\<close>.
\<close>

theorem upsert_merge_resources_witness:
  "\<exists>pkg. fst (upsert_dataset
            (Some [''name'' \<mapsto> PStr ''roads'',
                   ''resources'' \<mapsto> PList [resource_with_url ''b'', resource_with_url ''c'']])
            (client_with
               (Inr [''name'' \<mapsto> PStr ''roads'',
                     ''resources'' \<mapsto> PList [resource_with_url ''a'', resource_with_url ''b'']])
               accept)
            True False)
          = [PackageShow (PStr ''roads''), PackageUpdate pkg]
        \<and> pkg ''resources'' =
            Some (PList [resource_with_url ''a'', resource_with_url ''b'', resource_with_url ''c''])"
proof -
  let ?old = "[resource_with_url ''a'', resource_with_url ''b'']"
  let ?new = "[resource_with_url ''b'', resource_with_url ''c'']"
  let ?draft = "[''name'' \<mapsto> PStr ''roads'', ''resources'' \<mapsto> PList ?new]"
  let ?stored = "[''name'' \<mapsto> PStr ''roads'', ''resources'' \<mapsto> PList ?old]"
  have m: "merge_spec ?old ?new
           = [resource_with_url ''a'', resource_with_url ''b'', resource_with_url ''c'']"
    by (simp add: merge_spec_def url_of_def subscript_def resource_with_url_def)
  have h1: "?draft ''name'' = Some (PStr ''roads'')" by simp
  have h2: "?draft ''resources'' = Some (PList ?new)" by simp
  have h3: "package_show (client_with (Inr ?stored) accept) (PStr ''roads'') = Inr ?stored"
    by (simp add: client_with_def)
  have h4: "?stored ''resources'' = Some (PList ?old)" by simp
  have h5: "\<forall>r\<in>set ?old. has_url r"
    by (simp add: has_url_def subscript_def resource_with_url_def)
  have h6: "\<forall>r\<in>set ?new. has_url r"
    by (simp add: has_url_def subscript_def resource_with_url_def)
  from upsert_merge_resources [OF h1 h2 h3 h4 h5 h6, of True] show ?thesis
    by (simp only: m)
qed

text \<open>
  Claim C4, as amended. The update submitted after a reconciliation has no two resources
  with the same \<^verbatim>\<open>url\<close> provided the list that is kept has none: the draft's list when
  \<^verbatim>\<open>drop_existing_resources\<close> is true (it is submitted as it is), the list of the existing
  package when it is false (then every resource has a \<^verbatim>\<open>url\<close>).
\<close>

theorem upsert_distinct_urls:
  assumes "data_dict ''name'' = Some n"
    and "data_dict ''resources'' = Some (PList new)"
    and "package_show ckanapi n = Inr package"
    and "package ''resources'' = Some (PList old)"
    and "if drop_existing_resources then distinct (map url_of new)
         else distinct (map url_of old) \<and> (\<forall>r\<in>set old. has_url r) \<and> (\<forall>r\<in>set new. has_url r)"
  shows "\<exists>pkg rs. fst (upsert_dataset (Some data_dict) ckanapi overwrite_metadata
                        drop_existing_resources)
                    = [PackageShow n, PackageUpdate pkg]
                  \<and> pkg ''resources'' = Some (PList rs) \<and> distinct (map url_of rs)"
proof (cases drop_existing_resources)
  case True
  let ?pkg = "(if overwrite_metadata then data_dict else package)(''resources'' \<mapsto> PList new)"
  have a: "fst (upsert_dataset (Some data_dict) ckanapi overwrite_metadata True)
        = [PackageShow n, PackageUpdate ?pkg]"
    using assms(1-4)
    by (cases "package_update ckanapi ?pkg") (simp_all add: upsert_dataset_def reconcile_resources_def Let_def)
  have b: "?pkg ''resources'' = Some (PList new)" by simp
  have c: "distinct (map url_of new)" using assms(5) True by simp
  from True have t: "drop_existing_resources = True" by simp
  show ?thesis unfolding t
    by (intro exI [of _ ?pkg] exI [of _ new] conjI) (rule a, rule b, rule c)
next
  case False
  with assms(5) have wf: "\<forall>r\<in>set old. has_url r" "\<forall>r\<in>set new. has_url r"
    and d: "distinct (map url_of old)" by simp_all
  let ?pkg = "(if overwrite_metadata then data_dict else package)
                (''resources'' \<mapsto> PList (merge_spec old new))"
  have "add_resources_to_list old new = Inr (merge_spec old new)"
    using wf by (simp add: add_resources_merge)
  then have a: "fst (upsert_dataset (Some data_dict) ckanapi overwrite_metadata False)
        = [PackageShow n, PackageUpdate ?pkg]"
    using assms(1-4)
    by (cases "package_update ckanapi ?pkg")
       (simp_all add: upsert_dataset_def reconcile_resources_def as_list_def Let_def)
  have b: "?pkg ''resources'' = Some (PList (merge_spec old new))" by simp
  have c: "distinct (map url_of (merge_spec old new))"
    using d by (rule merge_spec_distinct)
  from False have f: "drop_existing_resources = False" by simp
  show ?thesis unfolding f
    by (intro exI [of _ ?pkg] exI [of _ "merge_spec old new"] conjI) (rule a, rule b, rule c)
qed

text \<open>
  Claim C4 at a merge: the draft brings the \<^verbatim>\<open>url\<close> \<^verbatim>\<open>b\<close> twice, the catalog has \<^verbatim>\<open>a, b\<close>.
\<close>

theorem upsert_distinct_urls_witness:
  "\<exists>pkg rs. fst (upsert_dataset
            (Some [''name'' \<mapsto> PStr ''roads'',
                   ''resources'' \<mapsto> PList [resource_with_url ''b'', resource_with_url ''b'']])
            (client_with
               (Inr [''name'' \<mapsto> PStr ''roads'',
                     ''resources'' \<mapsto> PList [resource_with_url ''a'', resource_with_url ''b'']])
               accept)
            True False)
          = [PackageShow (PStr ''roads''), PackageUpdate pkg]
        \<and> pkg ''resources'' = Some (PList rs) \<and> distinct (map url_of rs)"
proof -
  let ?old = "[resource_with_url ''a'', resource_with_url ''b'']"
  let ?new = "[resource_with_url ''b'', resource_with_url ''b'']"
  let ?draft = "[''name'' \<mapsto> PStr ''roads'', ''resources'' \<mapsto> PList ?new]"
  let ?stored = "[''name'' \<mapsto> PStr ''roads'', ''resources'' \<mapsto> PList ?old]"
  have h1: "?draft ''name'' = Some (PStr ''roads'')" by simp
  have h2: "?draft ''resources'' = Some (PList ?new)" by simp
  have h3: "package_show (client_with (Inr ?stored) accept) (PStr ''roads'') = Inr ?stored"
    by (simp add: client_with_def)
  have h4: "?stored ''resources'' = Some (PList ?old)" by simp
  have h5: "if False then distinct (map url_of ?new)
            else distinct (map url_of ?old) \<and> (\<forall>r\<in>set ?old. has_url r) \<and> (\<forall>r\<in>set ?new. has_url r)"
    by (simp add: has_url_def url_of_def subscript_def resource_with_url_def)
  from upsert_distinct_urls [OF h1 h2 h3 h4 h5, of True] show ?thesis .
qed

text \<open>
  Claim C4 as stated fails: a draft with the same \<^verbatim>\<open>url\<close> twice is submitted as it is
  when the existing resources are dropped, and a \<^verbatim>\<open>url\<close> that the existing package has
  twice stays twice when they are merged.
\<close>

theorem upsert_duplicate_urls_counterexample:
  "submitted_urls (fst (upsert_dataset
      (Some [''name'' \<mapsto> PStr ''roads'',
             ''resources'' \<mapsto> PList [resource_with_url ''a'', resource_with_url ''a'']])
      (client_with (Inr [''name'' \<mapsto> PStr ''roads'', ''resources'' \<mapsto> PList []]) accept)
      True True))
   = Some [PStr ''a'', PStr ''a'']
   \<and> submitted_urls (fst (upsert_dataset
      (Some [''name'' \<mapsto> PStr ''roads'', ''resources'' \<mapsto> PList [resource_with_url ''b'']])
      (client_with
         (Inr [''name'' \<mapsto> PStr ''roads'',
               ''resources'' \<mapsto> PList [resource_with_url ''a'', resource_with_url ''a'']])
         accept)
      True False))
   = Some [PStr ''a'', PStr ''a'', PStr ''b'']"
  by (simp add: upsert_dataset_def reconcile_resources_def client_with_def accept_def
      submitted_urls_def as_list_def Let_def add_resource_to_list_def subscript_def url_of_def resource_with_url_def)

section \<open>The calls of one run\<close>

lemma upsert_probe_failed:
  assumes "dd ''name'' = Some n" and "dd ''resources'' = Some rs"
    and "package_show ckanapi n = Inl e"
  shows "upsert_dataset (Some dd) ckanapi ow dr =
           ([PackageShow n, PackageCreate dd],
            case package_create ckanapi dd of Inl e' \<Rightarrow> Inl e' | Inr p \<Rightarrow> Inr (Some p))"
  using assms by (simp add: upsert_dataset_def split: sum.splits)

lemma upsert_found:
  assumes "dd ''name'' = Some n" and "dd ''resources'' = Some new_resources"
    and "package_show ckanapi n = Inr package"
    and "package ''resources'' = Some old_resources"
    and "reconcile_resources dr old_resources new_resources = Inr resources"
  shows "upsert_dataset (Some dd) ckanapi ow dr =
           ([PackageShow n, PackageUpdate ((if ow then dd else package)(''resources'' \<mapsto> resources))],
            case package_update ckanapi ((if ow then dd else package)(''resources'' \<mapsto> resources)) of
              Inl e' \<Rightarrow> Inl e' | Inr p \<Rightarrow> Inr (Some p))"
  using assms by (simp add: upsert_dataset_def Let_def split: sum.splits)

lemma upsert_calls_shape:
  assumes "dd ''name'' = Some n"
  shows "fst (upsert_dataset (Some dd) ckanapi ow dr) = []
       \<or> fst (upsert_dataset (Some dd) ckanapi ow dr) = [PackageShow n]
       \<or> (fst (upsert_dataset (Some dd) ckanapi ow dr) = [PackageShow n, PackageCreate dd]
           \<and> snd (upsert_dataset (Some dd) ckanapi ow dr)
               = (case package_create ckanapi dd of Inl e' \<Rightarrow> Inl e' | Inr p \<Rightarrow> Inr (Some p)))
       \<or> (\<exists>pkg. fst (upsert_dataset (Some dd) ckanapi ow dr) = [PackageShow n, PackageUpdate pkg]
           \<and> snd (upsert_dataset (Some dd) ckanapi ow dr)
               = (case package_update ckanapi pkg of Inl e' \<Rightarrow> Inl e' | Inr p \<Rightarrow> Inr (Some p)))"
proof (cases "dd ''resources''")
  case None
  with assms show ?thesis by (simp add: upsert_dataset_def)
next
  case (Some new_resources)
  show ?thesis
  proof (cases "package_show ckanapi n")
    case (Inl e)
    from upsert_probe_failed [of dd n new_resources ckanapi e ow dr, OF assms Some Inl]
    show ?thesis by simp
  next
    case (Inr package)
    show ?thesis
    proof (cases "package ''resources''")
      case None
      with assms Some Inr show ?thesis by (simp add: upsert_dataset_def)
    next
      case old: (Some old_resources)
      show ?thesis
      proof (cases "reconcile_resources dr old_resources new_resources")
        case (Inl e)
        with assms Some Inr old show ?thesis by (simp add: upsert_dataset_def)
      next
        case r: (Inr resources)
        from upsert_found [of dd n new_resources ckanapi package old_resources dr resources ow,
            OF assms Some Inr old r]
        show ?thesis by simp
      qed
    qed
  qed
qed


text \<open>
  Claim C8, as amended. Every failure of the lookup, not-found or any other, is answered
  with one \<^verbatim>\<open>package_create\<close> for the record, whose outcome is the outcome of the run. A
  rejected create or update reaches the caller as the exception of the client, unchanged,
  and is the last call made for the record; a run makes at most one write.
\<close>

theorem upsert_failures:
  assumes "dd ''name'' = Some n"
  shows "(\<forall>rs e. dd ''resources'' = Some rs \<and> package_show ckanapi n = Inl e \<longrightarrow>
            upsert_dataset (Some dd) ckanapi ow dr =
              ([PackageShow n, PackageCreate dd],
               case package_create ckanapi dd of Inl e' \<Rightarrow> Inl e' | Inr p \<Rightarrow> Inr (Some p)))
       \<and> (\<forall>pkg e. PackageUpdate pkg \<in> set (fst (upsert_dataset (Some dd) ckanapi ow dr))
                   \<and> package_update ckanapi pkg = Inl e \<longrightarrow>
            upsert_dataset (Some dd) ckanapi ow dr = ([PackageShow n, PackageUpdate pkg], Inl e))
       \<and> (\<forall>e. PackageCreate dd \<in> set (fst (upsert_dataset (Some dd) ckanapi ow dr))
                   \<and> package_create ckanapi dd = Inl e \<longrightarrow>
            upsert_dataset (Some dd) ckanapi ow dr = ([PackageShow n, PackageCreate dd], Inl e))
       \<and> length (filter is_write (fst (upsert_dataset (Some dd) ckanapi ow dr))) \<le> 1"
proof -
  have shape: "fst (upsert_dataset (Some dd) ckanapi ow dr) = []
       \<or> fst (upsert_dataset (Some dd) ckanapi ow dr) = [PackageShow n]
       \<or> (fst (upsert_dataset (Some dd) ckanapi ow dr) = [PackageShow n, PackageCreate dd]
           \<and> snd (upsert_dataset (Some dd) ckanapi ow dr)
               = (case package_create ckanapi dd of Inl e' \<Rightarrow> Inl e' | Inr p \<Rightarrow> Inr (Some p)))
       \<or> (\<exists>pkg. fst (upsert_dataset (Some dd) ckanapi ow dr) = [PackageShow n, PackageUpdate pkg]
           \<and> snd (upsert_dataset (Some dd) ckanapi ow dr)
               = (case package_update ckanapi pkg of Inl e' \<Rightarrow> Inl e' | Inr p \<Rightarrow> Inr (Some p)))"
    using assms by (rule upsert_calls_shape)
  show ?thesis
  proof (intro conjI allI impI)
    fix rs e
    assume "dd ''resources'' = Some rs \<and> package_show ckanapi n = Inl e"
    with assms show "upsert_dataset (Some dd) ckanapi ow dr =
              ([PackageShow n, PackageCreate dd],
               case package_create ckanapi dd of Inl e' \<Rightarrow> Inl e' | Inr p \<Rightarrow> Inr (Some p))"
      by (simp add: upsert_probe_failed)
  next
    fix pkg e
    assume "PackageUpdate pkg \<in> set (fst (upsert_dataset (Some dd) ckanapi ow dr))
                   \<and> package_update ckanapi pkg = Inl e"
    with shape
    show "upsert_dataset (Some dd) ckanapi ow dr = ([PackageShow n, PackageUpdate pkg], Inl e)"
      by (cases "upsert_dataset (Some dd) ckanapi ow dr") auto
  next
    fix e
    assume "PackageCreate dd \<in> set (fst (upsert_dataset (Some dd) ckanapi ow dr))
                   \<and> package_create ckanapi dd = Inl e"
    with shape
    show "upsert_dataset (Some dd) ckanapi ow dr = ([PackageShow n, PackageCreate dd], Inl e)"
      by (cases "upsert_dataset (Some dd) ckanapi ow dr") auto
  next
    from shape
    show "length (filter is_write (fst (upsert_dataset (Some dd) ckanapi ow dr))) \<le> 1"
      by auto
  qed
qed

text \<open>
  Claim C8 at a lookup that times out, followed by a create that the catalog rejects.
\<close>

theorem upsert_failures_witness:
  "upsert_dataset
     (Some [''name'' \<mapsto> PStr ''roads'', ''resources'' \<mapsto> PList [resource_with_url ''a'']])
     (client_with (Inl (CKANError ServerTimeout)) (reject (CKANError ValidationError)))
     True True
   = ([PackageShow (PStr ''roads''),
       PackageCreate [''name'' \<mapsto> PStr ''roads'', ''resources'' \<mapsto> PList [resource_with_url ''a'']]],
      Inl (CKANError ValidationError))"
proof -
  let ?draft = "[''name'' \<mapsto> PStr ''roads'', ''resources'' \<mapsto> PList [resource_with_url ''a'']]"
  let ?client = "client_with (Inl (CKANError ServerTimeout)) (reject (CKANError ValidationError))"
  have h: "?draft ''name'' = Some (PStr ''roads'')" by simp
  have r: "?draft ''resources'' = Some (PList [resource_with_url ''a''])
           \<and> package_show ?client (PStr ''roads'') = Inl (CKANError ServerTimeout)"
    by (simp add: client_with_def)
  have c: "package_create ?client ?draft = Inl (CKANError ValidationError)"
    by (simp add: client_with_def reject_def)
  from upsert_failures [of ?draft "PStr ''roads''" ?client True True, OF h] r
  have "upsert_dataset (Some ?draft) ?client True True =
          ([PackageShow (PStr ''roads''), PackageCreate ?draft],
           case package_create ?client ?draft of Inl e' \<Rightarrow> Inl e' | Inr p \<Rightarrow> Inr (Some p))"
    by blast
  then show ?thesis by (simp only: c sum.case)
qed

text \<open>
  Claim C8 as stated fails: a lookup that times out does not reach the caller, the record
  is created instead.
\<close>

theorem upsert_probe_timeout_counterexample:
  "upsert_dataset
     (Some [''name'' \<mapsto> PStr ''roads'', ''resources'' \<mapsto> PList [resource_with_url ''a'']])
     (client_with (Inl (CKANError ServerTimeout)) accept)
     True True
   = ([PackageShow (PStr ''roads''),
       PackageCreate [''name'' \<mapsto> PStr ''roads'', ''resources'' \<mapsto> PList [resource_with_url ''a'']]],
      Inr (Some [''name'' \<mapsto> PStr ''roads'', ''resources'' \<mapsto> PList [resource_with_url ''a'']]))"
  by (simp add: upsert_dataset_def client_with_def accept_def)

lemma reconcile_resources_cases:
  assumes "reconcile_resources dr old_resources new_resources = Inr resources"
  shows "(dr \<longrightarrow> resources = new_resources)
       \<and> (\<not> dr \<longrightarrow> (\<exists>old new merged. old_resources = PList old \<and> new_resources = PList new
               \<and> add_resources_to_list old new = Inr merged \<and> resources = PList merged))"
  using assms
  by (auto simp: reconcile_resources_def as_list_def split: sum.splits pyval.splits if_splits)

text \<open>
  Claim C9. With \<^verbatim>\<open>overwrite_metadata\<close> false and the package found, the update that is
  submitted has, under every key but \<^verbatim>\<open>resources\<close>, what the existing package has there;
  under \<^verbatim>\<open>resources\<close> it has the draft's list when the existing resources are dropped,
  and the merged list otherwise. It is the only write of the run.
\<close>

theorem upsert_keeps_metadata:
  assumes "data_dict ''name'' = Some n"
    and "package_show ckanapi n = Inr package"
    and "PackageUpdate pkg \<in> set (fst (upsert_dataset (Some data_dict) ckanapi False drop_existing_resources))"
  shows "(\<forall>k. k \<noteq> ''resources'' \<longrightarrow> pkg k = package k)
       \<and> fst (upsert_dataset (Some data_dict) ckanapi False drop_existing_resources)
           = [PackageShow n, PackageUpdate pkg]
       \<and> (drop_existing_resources \<longrightarrow> pkg ''resources'' = data_dict ''resources'')
       \<and> (\<not> drop_existing_resources \<longrightarrow>
            (\<exists>old new merged. package ''resources'' = Some (PList old)
               \<and> data_dict ''resources'' = Some (PList new)
               \<and> add_resources_to_list old new = Inr merged
               \<and> pkg ''resources'' = Some (PList merged)))"
proof (cases "data_dict ''resources''")
  case None
  with assms show ?thesis by (simp add: upsert_dataset_def)
next
  case (Some new_resources)
  show ?thesis
  proof (cases "package ''resources''")
    case None
    with assms Some show ?thesis by (simp add: upsert_dataset_def)
  next
    case old: (Some old_resources)
    show ?thesis
    proof (cases "reconcile_resources drop_existing_resources old_resources new_resources")
      case (Inl e)
      with assms Some old show ?thesis by (simp add: upsert_dataset_def)
    next
      case r: (Inr resources)
      have run: "fst (upsert_dataset (Some data_dict) ckanapi False drop_existing_resources)
                 = [PackageShow n, PackageUpdate (package(''resources'' \<mapsto> resources))]"
        using upsert_found [of data_dict n new_resources ckanapi package old_resources
            drop_existing_resources resources False, OF assms(1) Some assms(2) old r]
        by simp
      with assms(3) have pkg: "pkg = package(''resources'' \<mapsto> resources)" by simp
      from reconcile_resources_cases [OF r] pkg run Some old show ?thesis by auto
    qed
  qed
qed

text \<open>
  Claim C9 at a package whose title was edited in the catalog: the title stays, the
  resources are merged.
\<close>

theorem upsert_keeps_metadata_witness:
  "\<exists>pkg. fst (upsert_dataset
            (Some [''name'' \<mapsto> PStr ''roads'', ''title'' \<mapsto> PStr ''Harvested title'',
                   ''resources'' \<mapsto> PList [resource_with_url ''b'']])
            (client_with
               (Inr [''name'' \<mapsto> PStr ''roads'', ''title'' \<mapsto> PStr ''Curated title'',
                     ''resources'' \<mapsto> PList [resource_with_url ''a'']])
               accept)
            False False)
          = [PackageShow (PStr ''roads''), PackageUpdate pkg]
        \<and> pkg ''title'' = Some (PStr ''Curated title'')
        \<and> pkg ''resources'' = Some (PList [resource_with_url ''a'', resource_with_url ''b''])"
proof -
  let ?draft = "[''name'' \<mapsto> PStr ''roads'', ''title'' \<mapsto> PStr ''Harvested title'',
                 ''resources'' \<mapsto> PList [resource_with_url ''b'']]"
  let ?stored = "[''name'' \<mapsto> PStr ''roads'', ''title'' \<mapsto> PStr ''Curated title'',
                  ''resources'' \<mapsto> PList [resource_with_url ''a'']]"
  let ?client = "client_with (Inr ?stored) accept"
  let ?pkg = "?stored(''resources'' \<mapsto> PList [resource_with_url ''a'', resource_with_url ''b''])"
  have h1: "?draft ''name'' = Some (PStr ''roads'')" by simp
  have h2: "package_show ?client (PStr ''roads'') = Inr ?stored"
    by (simp add: client_with_def)
  have h3: "PackageUpdate ?pkg \<in> set (fst (upsert_dataset (Some ?draft) ?client False False))"
    by (simp add: upsert_dataset_def reconcile_resources_def as_list_def client_with_def
        accept_def add_resource_to_list_def subscript_def resource_with_url_def Let_def)
  note t = upsert_keeps_metadata
         [of ?draft "PStr ''roads''" ?client ?stored ?pkg False, OF h1 h2 h3]
  from t have frame: "\<forall>k. k \<noteq> ''resources'' \<longrightarrow> ?pkg k = ?stored k"
    by (rule conjunct1)
  from t have calls: "fst (upsert_dataset (Some ?draft) ?client False False)
                = [PackageShow (PStr ''roads''), PackageUpdate ?pkg]"
    by (rule conjunct1 [OF conjunct2])
  from frame have "''title'' \<noteq> ''resources'' \<longrightarrow> ?pkg ''title'' = ?stored ''title''"
    by (rule spec)
  then have "?pkg ''title'' = ?stored ''title''" by simp
  then have title: "?pkg ''title'' = Some (PStr ''Curated title'')" by simp
  have res: "?pkg ''resources'' = Some (PList [resource_with_url ''a'', resource_with_url ''b''])"
    by simp
  show ?thesis
    by (intro exI [of _ ?pkg] conjI) (rule calls, rule title, rule res)
qed

section \<open>What the name parser returns\<close>

lemma py_index_last: "p \<noteq> [] \<Longrightarrow> py_index p (- 1) = Inr (last p)"
  by (simp add: py_index_def Let_def last_conv_nth nat_diff_distrib')

lemma py_index_from_end:
  "0 < k \<Longrightarrow> k \<le> length p \<Longrightarrow> py_index p (- int k) = Inr (p ! (length p - k))"
  by (simp add: py_index_def Let_def nat_diff_distrib' of_nat_diff)

lemma py_index_short: "length p < k \<Longrightarrow> py_index p (- int k) = Inl IndexError"
  by (simp add: py_index_def Let_def)

lemma py_slice0_chop: "k \<le> length p \<Longrightarrow> py_slice0 p (int (length p) - int k) = take (length p - k) p"
  by (simp add: py_slice0_def nat_diff_distrib' of_nat_diff)

lemma split_acc_space:
  "is_space c \<Longrightarrow> split_acc cur (c # s) = split_acc cur [] @ split_acc [] s"
  by simp

lemma split_acc_sep:
  "is_space c \<Longrightarrow> split_acc cur (a @ c # b) = split_acc cur a @ split_acc [] b"
  by (induction a arbitrary: cur) simp_all

lemma split_acc_word:
  "\<forall>c\<in>set w. \<not> is_space c \<Longrightarrow> split_acc cur (w @ s) = split_acc (cur @ w) s"
  by (induction w arbitrary: cur) simp_all

lemma split_ws_sep: "is_space c \<Longrightarrow> split_ws (a @ c # b) = split_ws a @ split_ws b"
  by (simp add: split_ws_def split_acc_sep)

lemma split_ws_word: "w \<noteq> [] \<Longrightarrow> \<forall>c\<in>set w. \<not> is_space c \<Longrightarrow> split_ws w = [w]"
  using split_acc_word [of w "[]" "[]"] by (simp add: split_ws_def)

lemma re_sub_id: "\<not> has_lower_paren s \<Longrightarrow> re_sub_lower_paren s = s"
  by (induction s rule: re_sub_lower_paren.induct) auto

lemma has_lower_paren_Cons: "\<not> is_lower c \<Longrightarrow> has_lower_paren (c # s) = has_lower_paren s"
  by (cases s) simp_all

lemma has_lower_paren_no_paren: "CHR ''('' \<notin> set s \<Longrightarrow> \<not> has_lower_paren s"
  by (induction s rule: has_lower_paren.induct) auto

lemma has_lower_paren_append:
  "b \<noteq> [] \<Longrightarrow> hd b \<noteq> CHR ''('' \<Longrightarrow> has_lower_paren (a @ b) = (has_lower_paren a \<or> has_lower_paren b)"
proof (induction a)
  case Nil
  then show ?case by simp
next
  case (Cons x a)
  then show ?case by (cases a; cases b) auto
qed


lemma mod10_cases:
  "(k::nat) mod 10 = 0 \<or> k mod 10 = 1 \<or> k mod 10 = 2 \<or> k mod 10 = 3 \<or> k mod 10 = 4 \<or>
   k mod 10 = 5 \<or> k mod 10 = 6 \<or> k mod 10 = 7 \<or> k mod 10 = 8 \<or> k mod 10 = 9"
  by arith

lemma digit_val_digit_char: "digit_val (digit_char k) = Some (k mod 10)"
  using mod10_cases [of k] unfolding digit_char_def digit_val_def
  by (elim disjE) simp_all

lemma digit_char_plain:
  "\<not> is_space (digit_char k) \<and> digit_char k \<noteq> CHR ''('' \<and> digit_char k \<noteq> CHR '')''"
  using mod10_cases [of k] unfolding digit_char_def is_space_def
  by (elim disjE) simp_all

lemma num_field_pad2:
  assumes "n < 100" and "two (n div 10) (n mod 10)"
  shows "num_field two one (pad2 n @ r) = Some (n, r)"
proof -
  from assms(1) have "n div 10 mod 10 = n div 10" by simp
  with assms(2) show ?thesis by (simp add: pad2_def digit_val_digit_char)
qed


lemma decimal_steps:
  "(y::nat) = 10 * q1 + r0 \<Longrightarrow> q1 = 10 * q2 + r1 \<Longrightarrow> q2 = 10 * q3 + r2 \<Longrightarrow>
   1000 * q3 + 100 * r2 + 10 * r1 + r0 = y"
  by simp

lemma pad4_value:
  "1000 * ((y::nat) div 1000) + 100 * (y div 100 mod 10) + 10 * (y div 10 mod 10) + y mod 10 = y"
proof -
  have a: "y = 10 * (y div 10) + y mod 10" by simp
  have b: "y div 10 = 10 * (y div 100) + y div 10 mod 10"
    using div_mult_mod_eq [of "y div 10" 10] by (simp add: div_mult2_eq [symmetric])
  have c: "y div 100 = 10 * (y div 1000) + y div 100 mod 10"
    using div_mult_mod_eq [of "y div 100" 10] by (simp add: div_mult2_eq [symmetric])
  from a b c show ?thesis by (rule decimal_steps)
qed

lemma field_Y_pad4:
  assumes "y < 10000"
  shows "field_Y (pad4 y @ r) = Some (y, r)"
  using assms pad4_value [of y] by (simp add: field_Y_def pad4_def digit_val_digit_char)

lemma dropWhile_pad2: "dropWhile is_space (pad2 n @ r) = pad2 n @ r"
  by (simp add: pad2_def digit_char_plain)

lemma is_space_blank: "is_space CHR '' ''"
  by (simp add: is_space_def)

lemma days_in_month_le: "days_in_month y m \<le> 31"
  by (simp add: days_in_month_def)

lemma strptime_valid:
  assumes "valid_datetime t"
  shows "strptime (dmy_text t @ '' '' @ hms_text t) = Some t"
proof -
  from assms have y: "1900 \<le> year t" "year t < 10000"
    and m: "1 \<le> month t" "month t \<le> 12"
    and d: "1 \<le> day t" "day t \<le> days_in_month (year t) (month t)"
    and h: "hour t < 24" and mi: "minute t < 60" and s: "second t < 60"
    by (simp_all add: valid_datetime_def)
  from d days_in_month_le [of "year t" "month t"] have d31: "day t \<le> 31" by simp
  have d2: "(day t div 10 = 3 \<and> day t mod 10 \<le> 1) \<or> (1 \<le> day t div 10 \<and> day t div 10 \<le> 2)
            \<or> (day t div 10 = 0 \<and> 1 \<le> day t mod 10)"
    using d(1) d31 by arith
  have m2: "(month t div 10 = 1 \<and> month t mod 10 \<le> 2) \<or> (month t div 10 = 0 \<and> 1 \<le> month t mod 10)"
    using m by arith
  have h2: "(hour t div 10 = 2 \<and> hour t mod 10 \<le> 3) \<or> hour t div 10 \<le> 1"
    using h by arith
  have mi2: "minute t div 10 \<le> 5" using mi by arith
  have s2: "(second t div 10 = 6 \<and> second t mod 10 \<le> 1) \<or> second t div 10 \<le> 5"
    using s by arith
  have fd: "field_d (pad2 (day t) @ r) = Some (day t, r)" for r
    unfolding field_d_def using d31 d2 by (subst num_field_pad2) simp_all
  have fm: "field_m (pad2 (month t) @ r) = Some (month t, r)" for r
    unfolding field_m_def using m m2 by (subst num_field_pad2) simp_all
  have fy: "field_Y (pad4 (year t) @ r) = Some (year t, r)" for r
    using y by (simp add: field_Y_pad4)
  have fH: "field_H (pad2 (hour t) @ r) = Some (hour t, r)" for r
    unfolding field_H_def using h h2 by (subst num_field_pad2) simp_all
  have fM: "field_M (pad2 (minute t) @ r) = Some (minute t, r)" for r
    unfolding field_M_def using mi mi2 by (subst num_field_pad2) simp_all
  have fS: "field_S (pad2 (second t)) = Some (second t, [])"
    unfolding field_S_def using s s2 num_field_pad2 [where n = "second t" and r = "[]"] by simp
  show ?thesis
    using y d s
    by (simp add: strptime_def dmy_text_def hms_text_def fd fm fy fH fM fS lit_def blanks_def
        is_space_blank dropWhile_pad2)
qed


lemma parse_name_three_from_end:
  assumes "split_ws (re_sub_lower_paren text) = p"
    and "3 \<le> length p"
    and "\<not> startswith (last p) ''(''"
    and "endswith (last p) '')''"
  shows "parse_name now text =
           Inr (join '' '' (take (length p - 3) p),
                Some (lower (remove_char CHR '')'' (remove_char CHR ''('' (p ! (length p - 3))))),
                case strptime_iso (remove_char CHR ''('' (p ! (length p - 2)) @ '' '' @
                                   remove_char CHR '')'' (last p)) of
                  None \<Rightarrow> now | Some v \<Rightarrow> v)"
proof -
  from assms(2) have ne: "p \<noteq> []" by auto
  have l1: "py_index p (- 1) = Inr (last p)" using ne by (rule py_index_last)
  have l2: "py_index p (- 2) = Inr (p ! (length p - 2))"
    using py_index_from_end [of 2 p] assms(2) by simp
  have l3: "py_index p (- 3) = Inr (p ! (length p - 3))"
    using py_index_from_end [of 3 p] assms(2) by simp
  have s3: "py_slice0 p (int (length p) - 3) = take (length p - 3) p"
    using py_slice0_chop [of 3 p] assms(2) by simp
  from assms(1,3,4) l1 l2 l3 s3 show ?thesis
    by (simp add: parse_name_def Let_def)
qed

lemma pad2_plain: "\<forall>c\<in>set (pad2 n). \<not> is_space c \<and> c \<noteq> CHR ''('' \<and> c \<noteq> CHR '')''"
  by (simp add: pad2_def digit_char_plain)

lemma pad4_plain: "\<forall>c\<in>set (pad4 n). \<not> is_space c \<and> c \<noteq> CHR ''('' \<and> c \<noteq> CHR '')''"
  by (simp add: pad4_def digit_char_plain)

lemma plain_chars:
  "\<not> is_space CHR ''-'' \<and> \<not> is_space CHR '':''"
  by (simp add: is_space_def)

lemma dmy_text_plain:
  "\<forall>c\<in>set (dmy_text t). \<not> is_space c \<and> c \<noteq> CHR ''('' \<and> c \<noteq> CHR '')''"
  using plain_chars pad2_plain [of "day t"] pad2_plain [of "month t"] pad4_plain [of "year t"]
  by (simp add: dmy_text_def ball_Un)

lemma hms_text_plain:
  "\<forall>c\<in>set (hms_text t). \<not> is_space c \<and> c \<noteq> CHR ''('' \<and> c \<noteq> CHR '')''"
  using plain_chars pad2_plain [of "hour t"] pad2_plain [of "minute t"] pad2_plain [of "second t"]
  by (simp add: hms_text_def ball_Un)

lemma hms_text_Cons: "hms_text t = digit_char (hour t div 10) # tl (hms_text t)"
  by (simp add: hms_text_def pad2_def)

lemma remove_char_absent: "c \<notin> set s \<Longrightarrow> remove_char c s = s"
  by (auto simp: remove_char_def filter_id_conv)

lemma strptime_iso_valid:
  assumes "valid_datetime t"
  shows "strptime_iso (dmy_text t @ '' '' @ hms_text t) = Some (iso_text t)"
  using strptime_valid [OF assms] assms
  by (simp add: strptime_iso_def strftime_iso_def valid_datetime_def)

lemma paren_not_space: "\<not> is_space CHR ''('' \<and> \<not> is_space CHR '')''"
  by (simp add: is_space_def)

lemma title_tokens:
  assumes "\<forall>c\<in>set ID. \<not> is_space c"
  shows "split_ws (T @ '' ('' @ ID @ '') ('' @ dmy_text t @ '' '' @ hms_text t @ '')'')
         = split_ws T @ [''('' @ ID @ '')'', ''('' @ dmy_text t, hms_text t @ '')'']"
proof -
  define a where "a = ''('' @ ID @ '')''"
  define b where "b = ''('' @ dmy_text t"
  define c where "c = hms_text t @ '')''"
  have sp: "is_space CHR '' ''" by (rule is_space_blank)
  have "a \<noteq> []" and "\<forall>x\<in>set a. \<not> is_space x"
    using assms paren_not_space by (simp_all add: a_def ball_Un)
  then have w1: "split_ws a = [a]" by (rule split_ws_word)
  have "b \<noteq> []" and "\<forall>x\<in>set b. \<not> is_space x"
    using dmy_text_plain [of t] paren_not_space by (simp_all add: b_def ball_Un)
  then have w2: "split_ws b = [b]" by (rule split_ws_word)
  have "c \<noteq> []" and "\<forall>x\<in>set c. \<not> is_space x"
    using hms_text_plain [of t] paren_not_space by (simp_all add: c_def ball_Un)
  then have w3: "split_ws c = [c]" by (rule split_ws_word)
  have "split_ws (T @ CHR '' '' # a @ CHR '' '' # b @ CHR '' '' # c) = split_ws T @ [a, b, c]"
    by (simp only: split_ws_sep [OF sp] w1 w2 w3 append.simps)
  moreover have "T @ '' ('' @ ID @ '') ('' @ dmy_text t @ '' '' @ hms_text t @ '')''
                 = T @ CHR '' '' # a @ CHR '' '' # b @ CHR '' '' # c"
    by (simp add: a_def b_def c_def)
  ultimately show ?thesis by (simp only: a_def b_def c_def)
qed

lemma title_no_lower_paren:
  assumes "\<not> has_lower_paren T" and "\<not> has_lower_paren ID"
  shows "\<not> has_lower_paren (T @ '' ('' @ ID @ '') ('' @ dmy_text t @ '' '' @ hms_text t @ '')'')"
proof -
  define rest where "rest = dmy_text t @ '' '' @ hms_text t @ '')''"
  have "CHR ''('' \<notin> set rest"
    using dmy_text_plain [of t] hms_text_plain [of t] by (auto simp: rest_def)
  then have r: "\<not> has_lower_paren rest" by (rule has_lower_paren_no_paren)
  have nl: "\<not> is_lower CHR '' ''" "\<not> is_lower CHR ''(''" "\<not> is_lower CHR '')''"
    by (simp_all add: is_lower_def)
  have a: "\<not> has_lower_paren (CHR '')'' # CHR '' '' # CHR ''('' # rest)"
    using r by (simp add: has_lower_paren_Cons nl del: has_lower_paren.simps)
  have b: "\<not> has_lower_paren (ID @ CHR '')'' # CHR '' '' # CHR ''('' # rest)"
    using a assms(2) has_lower_paren_append [of "CHR '')'' # CHR '' '' # CHR ''('' # rest" ID]
    by simp
  have c: "\<not> has_lower_paren (CHR '' '' # CHR ''('' # ID @ CHR '')'' # CHR '' '' # CHR ''('' # rest)"
    using b by (simp add: has_lower_paren_Cons nl del: has_lower_paren.simps)
  have d: "\<not> has_lower_paren (T @ CHR '' '' # CHR ''('' # ID @ CHR '')'' # CHR '' '' # CHR ''('' # rest)"
    using c assms(1)
      has_lower_paren_append
        [of "CHR '' '' # CHR ''('' # ID @ CHR '')'' # CHR '' '' # CHR ''('' # rest" T]
    by simp
  have e: "T @ '' ('' @ ID @ '') ('' @ dmy_text t @ '' '' @ hms_text t @ '')''
        = T @ CHR '' '' # CHR ''('' # ID @ CHR '')'' # CHR '' '' # CHR ''('' # rest"
    by (simp add: rest_def)
  show ?thesis unfolding e by (rule d)
qed

text \<open>
  Claim C6, as amended. For a title \<^verbatim>\<open>T (ID) (DD-MM-YYYY HH:MM:SS)\<close> the parser returns
  \<open>T\<close>, the identifier in lower case without parentheses and the date in ISO form, when
  \<open>T\<close> is a sequence of words with one blank between them and none at its ends, \<open>ID\<close> has
  no whitespace, no lower-case letter of \<open>T\<close> or \<open>ID\<close> stands directly before an opening
  parenthesis, and the date is a date of the calendar from the year 1900 on.
\<close>

theorem parse_name_title_id_date:
  assumes "valid_datetime t"
    and "join '' '' (split_ws T) = T"
    and "\<forall>c\<in>set ID. \<not> is_space c"
    and "\<not> has_lower_paren T"
    and "\<not> has_lower_paren ID"
  shows "parse_name now (T @ '' ('' @ ID @ '') ('' @ dmy_text t @ '' '' @ hms_text t @ '')'')
         = Inr (T, Some (lower (remove_char CHR '')'' (remove_char CHR ''('' ID))), iso_text t)"
proof -
  let ?text = "T @ '' ('' @ ID @ '') ('' @ dmy_text t @ '' '' @ hms_text t @ '')''"
  let ?p = "split_ws T @ [''('' @ ID @ '')'', ''('' @ dmy_text t, hms_text t @ '')'']"
  have "re_sub_lower_paren ?text = ?text"
    using assms(4,5) by (intro re_sub_id title_no_lower_paren)
  then have p: "split_ws (re_sub_lower_paren ?text) = ?p"
    using assms(3) by (simp only: title_tokens)
  have len: "3 \<le> length ?p" by simp
  have lst: "last ?p = hms_text t @ '')''" by simp
  have st: "\<not> startswith (last ?p) ''(''"
    unfolding lst using digit_char_plain [of "hour t div 10"]
    by (subst hms_text_Cons) (simp add: startswith_def)
  have en: "endswith (last ?p) '')''"
    unfolding lst by (simp add: endswith_def)
  have i2: "?p ! (length ?p - 2) = ''('' @ dmy_text t" by (simp add: nth_append)
  have i3: "?p ! (length ?p - 3) = ''('' @ ID @ '')''" by (simp add: nth_append)
  have tk: "take (length ?p - 3) ?p = split_ws T" by simp
  have "CHR ''('' \<notin> set (dmy_text t)" using dmy_text_plain [of t] by blast
  then have d: "remove_char CHR ''('' (''('' @ dmy_text t) = dmy_text t"
    using remove_char_absent [of "CHR ''(''" "dmy_text t"] by (simp add: remove_char_def)
  have "CHR '')'' \<notin> set (hms_text t)" using hms_text_plain [of t] by blast
  then have h: "remove_char CHR '')'' (hms_text t @ '')'') = hms_text t"
    using remove_char_absent [of "CHR '')''" "hms_text t"] by (simp add: remove_char_def)
  have n: "remove_char CHR '')'' (remove_char CHR ''('' (''('' @ ID @ '')''))
           = remove_char CHR '')'' (remove_char CHR ''('' ID)"
    by (simp add: remove_char_def)
  have iso: "strptime_iso (dmy_text t @ '' '' @ hms_text t) = Some (iso_text t)"
    using assms(1) by (rule strptime_iso_valid)
  from parse_name_three_from_end [OF p len st en, of now]
  show ?thesis
    unfolding i2 i3 tk lst d h n iso assms(2) by simp
qed



text \<open>Claim C6 at the first example of the source's documentation.\<close>

theorem parse_name_title_id_date_witness:
  "parse_name ''2015-10-05T13:41:48''
     ''Hydrographic Catchments - Basins (Dow-013) (03-11-2008 15:07:44)''
   = Inr (''Hydrographic Catchments - Basins'', Some ''dow-013'', ''2008-11-03T15:07:44'')"
proof -
  let ?t = "\<lparr>year = 2008, month = 11, day = 3, hour = 15, minute = 7, second = 44\<rparr>"
  let ?T = "''Hydrographic Catchments - Basins''"
  let ?ID = "''Dow-013''"
  have h1: "valid_datetime ?t" by code_simp
  have h2: "join '' '' (split_ws ?T) = ?T" by code_simp
  have h3: "\<forall>c\<in>set ?ID. \<not> is_space c" by code_simp
  have h4: "\<not> has_lower_paren ?T" by code_simp
  have h5: "\<not> has_lower_paren ?ID" by code_simp
  have tx: "?T @ '' ('' @ ?ID @ '') ('' @ dmy_text ?t @ '' '' @ hms_text ?t @ '')''
             = ''Hydrographic Catchments - Basins (Dow-013) (03-11-2008 15:07:44)''"
    by code_simp
  have n: "lower (remove_char CHR '')'' (remove_char CHR ''('' ?ID)) = ''dow-013''" by code_simp
  have iso: "iso_text ?t = ''2008-11-03T15:07:44''" by code_simp
  from parse_name_title_id_date [OF h1 h2 h3 h4 h5, of "''2015-10-05T13:41:48''"]
  show ?thesis by (simp only: tx n iso)
qed

text \<open>
  Claim C6 as stated fails: the parts of the title are joined with single blanks, so a title
  with two blanks between its words does not come back as it was.
\<close>

theorem parse_name_title_spacing_counterexample:
  "parse_name ''2015-10-05T13:41:48'' ''Misc  Transport (Lgate-037) (18-10-2012 16:54:00)''
   = Inr (''Misc Transport'', Some ''lgate-037'', ''2012-10-18T16:54:00'')
   \<and> ''Misc Transport'' \<noteq> ''Misc  Transport''"
  by code_simp

text \<open>
  Claim C7, as amended. Whenever the parser returns, the identifier is \<^verbatim>\<open>None\<close> exactly when
  the last part of the title does not end with a closing parenthesis.
\<close>

theorem parse_name_identifier_none:
  assumes "parse_name now text = Inr (t, n, dt)"
  shows "(n = None) = (\<not> endswith (last (split_ws (re_sub_lower_paren text))) '')'')"
proof -
  let ?p = "split_ws (re_sub_lower_paren text)"
  from assms have ne: "?p \<noteq> []"
    by (auto simp: parse_name_def py_index_def Let_def)
  then have l1: "py_index ?p (- 1) = Inr (last ?p)" by (rule py_index_last)
  from assms show ?thesis
    unfolding parse_name_def Let_def l1
    by (auto split: sum.splits if_splits)
qed

text \<open>
  Claim C7 at a title whose identifier is found: its last part ends with a closing
  parenthesis.
\<close>

theorem parse_name_identifier_none_witness:
  "endswith (last (split_ws (re_sub_lower_paren ''Graticule (REF-001)''))) '')''"
proof -
  have h: "parse_name ''2015-10-05T13:41:03'' ''Graticule (REF-001)''
           = Inr (''Graticule'', Some ''ref-001'', ''2015-10-05T13:41:03'')"
    by code_simp
  from parse_name_identifier_none [OF h] show ?thesis by simp
qed

text \<open>
  Claim C7 as stated fails: a part in parentheses that is not the last part of the title is
  not looked at, and the identifier is \<^verbatim>\<open>None\<close>.
\<close>

theorem parse_name_inner_parenthesis_counterexample:
  "list_ex parenthesized (split_ws ''Roads (LGATE-001) draft'')
   \<and> parse_name ''2015-10-05T13:41:48'' ''Roads (LGATE-001) draft''
       = Inr (''Roads (LGATE-001) draft'', None, ''2015-10-05T13:41:48'')"
  by code_simp

text \<open>
  Claim C2 says that the parser returns for every text. On the empty text, on a text of
  whitespace and on a text of one word that does not start with a parenthesis it raises
  \<^verbatim>\<open>IndexError\<close>.
\<close>

theorem parse_name_raises_on_short_input:
  "parse_name ''2015-10-05T13:41:48'' [] = Inl IndexError
   \<and> parse_name ''2015-10-05T13:41:48'' ''   '' = Inl IndexError
   \<and> parse_name ''2015-10-05T13:41:48'' ''Mosaic'' = Inl IndexError"
  by code_simp

text \<open>
  Claim C3 says that every character of the text stays when the blank is inserted. The
  substitution replaces the lower-case letter together with the parenthesis, so the letter is
  lost: \<^verbatim>\<open>Rivers(\<close> becomes \<^verbatim>\<open>River (\<close>.
\<close>

theorem normalization_drops_letter:
  "re_sub_lower_paren ''Overview Rivers(LGATE-053) (14-05-2008 17:59:05)''
   = ''Overview River (LGATE-053) (14-05-2008 17:59:05)''
   \<and> parse_name ''2015-10-05T13:41:48'' ''Overview Rivers(LGATE-053) (14-05-2008 17:59:05)''
       = Inr (''Overview River'', Some ''lgate-053'', ''2008-05-14T17:59:05'')"
  by code_simp

section \<open>The dataset key of a mapped layer\<close>

text \<open>
  Claim C10, as amended. The name of the package a layer is mapped to, its dataset key, is
  the slug of the title that the name parser reads from the layer's display title. The layer's
  name and id do not enter it: layers with the same display title get the same key.
\<close>

theorem wxs_to_dict_name_from_title:
  assumes "wxs_to_dict slugify now layer wxs_url org_dict group_dict pdf_dict fallback_org_id
             res_format = Inr (Some d)"
  shows "\<exists>ds_title ds_name date_pub.
           parse_name now (l_title layer) = Inr (ds_title, Some ds_name, date_pub)
         \<and> d ''name'' = Some (PStr (slugify ds_title))"
proof (cases "parse_name now (l_title layer)")
  case (Inl e)
  with assms show ?thesis by (simp add: wxs_to_dict_def split: sum.splits)
next
  case (Inr parsed)
  obtain ds_title ds_name_opt date_pub where parsed: "parsed = (ds_title, ds_name_opt, date_pub)"
    by (cases parsed) auto
  show ?thesis
  proof (cases ds_name_opt)
    case None
    with assms Inr parsed show ?thesis by (simp add: wxs_to_dict_def split: sum.splits)
  next
    case (Some ds_name)
    from assms Inr parsed Some have "d ''name'' = Some (PStr (slugify ds_title))"
      by (auto simp: wxs_to_dict_def Let_def split: sum.splits)
    with Inr parsed Some show ?thesis by simp
  qed
qed

text \<open>
  Claim C10 at the layer \<^verbatim>\<open>LGATE-001\<close> titled \<^verbatim>\<open>Roads\<close>: its key is \<^verbatim>\<open>roads\<close>.
\<close>

theorem wxs_to_dict_name_from_title_witness:
  "\<exists>ds_title ds_name date_pub.
     parse_name ''2015-10-05T13:41:48'' (l_title (roads_layer ''LGATE-001''))
       = Inr (ds_title, Some ds_name, date_pub)
     \<and> PStr ''roads'' = PStr (slugify_ascii ds_title)"
proof -
  have p: "parse_name ''2015-10-05T13:41:48'' ''Roads (LGATE-001) (14-05-2008 17:59:05)''
           = Inr (''Roads'', Some ''lgate-001'', ''2008-05-14T17:59:05'')"
    by code_simp
  have sl: "slugify_ascii ''Roads'' = ''roads''" by code_simp
  have sp: "split_on CHR ''-'' ''lgate-001'' = [''lgate'', ''001'']" by code_simp
  have "\<exists>d. wxs_to_dict slugify_ascii ''2015-10-05T13:41:48'' (roads_layer ''LGATE-001'')
          ''https://example.org/wms'' Map.empty Map.empty Map.empty PNone ''WMS'' = Inr (Some d)
        \<and> d ''name'' = Some (PStr ''roads'')"
    by (simp add: wxs_to_dict_def roads_layer_def layer_key_def p sl sp owner_org_def
        py_index_def get_if_has_def Let_def)
  then obtain d where
    d: "wxs_to_dict slugify_ascii ''2015-10-05T13:41:48'' (roads_layer ''LGATE-001'')
          ''https://example.org/wms'' Map.empty Map.empty Map.empty PNone ''WMS'' = Inr (Some d)"
    and n: "d ''name'' = Some (PStr ''roads'')"
    by blast
  from wxs_to_dict_name_from_title [OF d] n show ?thesis by simp
qed

text \<open>
  Claim C10 as stated fails: two layers with the same display title and different
  identifiers get the same dataset key.
\<close>

theorem wxs_to_dict_same_title_counterexample:
  "dataset_key (wxs_to_dict slugify_ascii ''2015-10-05T13:41:48'' (roads_layer ''LGATE-001'')
     ''https://example.org/wms'' Map.empty Map.empty Map.empty PNone ''WMS'')
     = Some (PStr ''roads'')
   \<and> dataset_key (wxs_to_dict slugify_ascii ''2015-10-05T13:41:48'' (roads_layer ''LGATE-002'')
     ''https://example.org/wms'' Map.empty Map.empty Map.empty PNone ''WMS'')
     = Some (PStr ''roads'')
   \<and> l_id (roads_layer ''LGATE-001'') \<noteq> l_id (roads_layer ''LGATE-002'')
   \<and> l_name (roads_layer ''LGATE-001'') \<noteq> l_name (roads_layer ''LGATE-002'')"
proof -
  have p: "parse_name ''2015-10-05T13:41:48'' ''Roads (LGATE-001) (14-05-2008 17:59:05)''
           = Inr (''Roads'', Some ''lgate-001'', ''2008-05-14T17:59:05'')"
    by code_simp
  have sl: "slugify_ascii ''Roads'' = ''roads''" by code_simp
  have sp: "split_on CHR ''-'' ''lgate-001'' = [''lgate'', ''001'']" by code_simp
  show ?thesis
    by (simp add: dataset_key_def wxs_to_dict_def roads_layer_def layer_key_def p sl sp
        owner_org_def py_index_def get_if_has_def Let_def)
qed

end
